theory Spec2Isabelle
  imports Complex_Main "HOL-Library.Word"
begin

section \<open>The platform: double arithmetic and the input stream\<close>

text \<open>
  The evaluator computes with C \<open>double\<close>s and with \<open>pow\<close> of \<open>math.h\<close>. Neither belongs
  to the repository, so the arithmetic is a parameter of every function below: a record
  of the primitives the two source files use. A statement proved for every such record
  holds for IEEE-754 doubles in particular.
\<close>

record 'd arith =
  of_int_d :: "int \<Rightarrow> 'd"
  add_d :: "'d \<Rightarrow> 'd \<Rightarrow> 'd"
  sub_d :: "'d \<Rightarrow> 'd \<Rightarrow> 'd"
  mul_d :: "'d \<Rightarrow> 'd \<Rightarrow> 'd"
  div_d :: "'d \<Rightarrow> 'd \<Rightarrow> 'd"
  pow_d :: "'d \<Rightarrow> 'd \<Rightarrow> 'd"

text \<open>
  Exact arithmetic over the reals, used wherever a claim names a concrete number. It
  idealises finite doubles without rounding. It is only evaluated where the divisor is
  not zero and the base of a power is positive.
\<close>

definition exact :: "real arith" where
  "exact = \<lparr>of_int_d = real_of_int, add_d = (+), sub_d = (-), mul_d = (*),
            div_d = (/), pow_d = (powr)\<rparr>"

text \<open>
  \<open>getchar()\<close> on standard input, the result stored in a \<open>char\<close>: the stream is the list
  of characters not yet read; at its end \<open>getchar\<close> returns \<open>EOF\<close>, which is \<open>-1\<close> and
  becomes the byte \<open>0xFF\<close> in a \<open>char\<close>.
\<close>

definition EOF_char :: char where
  "EOF_char = CHR 0xFF"

definition getchar :: "string \<Rightarrow> char \<times> string" where
  "getchar inp = (case inp of [] \<Rightarrow> (EOF_char, []) | c # cs \<Rightarrow> (c, cs))"

definition is_digit :: "char \<Rightarrow> bool" where
  "is_digit c = ((of_char CHR ''0'' :: nat) \<le> of_char c \<and> (of_char c :: nat) \<le> of_char CHR ''9'')"

definition digit_val :: "char \<Rightarrow> int" where
  "digit_val c = int (of_char c) - int (of_char CHR ''0'')"

section \<open>parse-math-expr.c\<close>

subsection \<open>parse_operand\<close>

text \<open>
  Lines 57 to 76 of \<open>parse_operand\<close>: the loop over the characters that follow the first
  one, and the multiplication by the sign after it. The head of the stream is the
  character the next \<open>getchar()\<close> returns. \<open>exponent\<close> is a \<open>char\<close>, here a signed byte;
  \<open>++exponent\<close> wraps from 127 to -128.
  The result is the returned character, the value left in \<open>*operand\<close> and the rest of the
  stream. The early \<open>return 's'\<close> on a second dot leaves \<open>*operand\<close> without its sign.
\<close>

fun operand_loop ::
  "'d arith \<Rightarrow> 'd \<Rightarrow> 'd \<Rightarrow> bool \<Rightarrow> 8 word \<Rightarrow> string \<Rightarrow> char \<times> 'd \<times> string" where
  "operand_loop ar sign operand hasFractionalPart exponent [] =
     (EOF_char, mul_d ar operand sign, [])"
| "operand_loop ar sign operand hasFractionalPart exponent (c # cs) =
     (if is_digit c then
        (if hasFractionalPart then
           operand_loop ar sign
             (add_d ar operand
                (div_d ar (of_int_d ar (digit_val c))
                   (pow_d ar (of_int_d ar 10) (of_int_d ar (sint (exponent + 1))))))
             hasFractionalPart (exponent + 1) cs
         else
           operand_loop ar sign
             (add_d ar (mul_d ar operand (of_int_d ar 10)) (of_int_d ar (digit_val c)))
             hasFractionalPart exponent cs)
      else if c = CHR ''.'' then
        (if hasFractionalPart then (CHR ''s'', operand, cs)
         else operand_loop ar sign operand True exponent cs)
      else (c, mul_d ar operand sign, cs))"

definition parse_operand :: "'d arith \<Rightarrow> char \<Rightarrow> string \<Rightarrow> char \<times> 'd \<times> string" where
  "parse_operand ar c inp =
     (if c = CHR ''-'' then operand_loop ar (of_int_d ar (- 1)) (of_int_d ar 0) False 0 inp
      else if c = CHR ''+'' then operand_loop ar (of_int_d ar 1) (of_int_d ar 0) False 0 inp
      else if is_digit c then
        operand_loop ar (of_int_d ar 1) (of_int_d ar (digit_val c)) False 0 inp
      else if c = CHR ''.'' then operand_loop ar (of_int_d ar 1) (of_int_d ar 0) True 0 inp
      else if c = CHR ''*'' \<or> c = CHR ''/'' then (CHR ''s'', of_int_d ar 0, inp)
      else if c = CHR ''('' then (CHR ''o'', of_int_d ar 0, inp)
      else (c, of_int_d ar 0, inp))"

subsection \<open>parse_expr\<close>

text \<open>
  The window of \<open>calculate\<close>: the arrays \<open>operands[3]\<close> and \<open>operators[3]\<close> as lists of
  length three, and the cursor \<open>window_at\<close>, which stays between 0 and 3.
\<close>

record 'd window =
  operands :: "'d list"
  operators :: "char list"
  window_at :: nat

definition set_operand :: "'d window \<Rightarrow> nat \<Rightarrow> 'd \<Rightarrow> 'd window" where
  "set_operand w i v = w\<lparr>operands := (operands w)[i := v]\<rparr>"

definition set_operator :: "'d window \<Rightarrow> nat \<Rightarrow> char \<Rightarrow> 'd window" where
  "set_operator w i c = w\<lparr>operators := (operators w)[i := c]\<rparr>"

text \<open>\<open>while( c == ' ' || c == '\t') c = getchar();\<close>\<close>

fun skip_blanks :: "char \<Rightarrow> string \<Rightarrow> char \<times> string" where
  "skip_blanks c [] =
     (if c = CHR '' '' \<or> c = CHR 0x09 then (EOF_char, []) else (c, []))"
| "skip_blanks c (x # xs) =
     (if c = CHR '' '' \<or> c = CHR 0x09 then skip_blanks x xs else (c, x # xs))"

text \<open>
  One of the five operator cases of the \<open>switch\<close>: store the operator, leave the
  \<open>switch\<close>, and \<open>*window_at += 1\<close>.
\<close>

definition store_operator :: "'d window \<Rightarrow> char \<Rightarrow> 'd window" where
  "store_operator w c = (set_operator w (window_at w) c)\<lparr>window_at := window_at w + 1\<rparr>"

function parse_expr :: "'d arith \<Rightarrow> 'd window \<Rightarrow> string \<Rightarrow> char \<times> 'd window \<times> string" where
  "parse_expr ar w inp =
     (if window_at w < 3 then
        (case getchar inp of (c0, inp0) \<Rightarrow>
         case parse_operand ar c0 inp0 of (c1, v, inp1) \<Rightarrow>
           let w1 = set_operand w (window_at w) v in
           if c1 = CHR ''s'' then (CHR ''s'', w1, inp1)
           else
             (case skip_blanks c1 inp1 of (c, inp2) \<Rightarrow>
                if c = CHR ''^'' then parse_expr ar (store_operator w1 CHR ''^'') inp2
                else if c = CHR ''+'' then parse_expr ar (store_operator w1 CHR ''+'') inp2
                else if c = CHR ''-'' then parse_expr ar (store_operator w1 CHR ''-'') inp2
                else if c = CHR ''*'' then parse_expr ar (store_operator w1 CHR ''*'') inp2
                else if c = CHR ''/'' then parse_expr ar (store_operator w1 CHR ''/'') inp2
                else if c = CHR ''('' then
                  (CHR ''o'', set_operator w1 (window_at w1) CHR ''('', inp2)
                else if c = CHR ''o'' then (CHR ''o'', w1, inp2)
                else if c = CHR '')'' then (CHR ''c'', w1, inp2)
                else if c = CHR 0x0A then (CHR ''n'', w1, inp2)
                else (CHR ''s'', w1, inp2)))
      else (CHR ''>'', w, inp))"
  by pat_completeness auto
termination
  by (relation "measure (\<lambda>(ar, w, inp). 3 - window_at w)")
     (auto simp: store_operator_def set_operator_def set_operand_def)

section \<open>compute-math-expr.c\<close>

definition contains_nest_op :: "char list \<Rightarrow> bool" where
  "contains_nest_op ops =
     (ops ! 0 = CHR ''('' \<or> ops ! 1 = CHR ''('' \<or> ops ! 2 = CHR ''('')"

definition highest_order_op :: "char list \<Rightarrow> nat" where
  "highest_order_op ops =
     (if ops ! 1 = CHR ''^'' then 1
      else if ops ! 0 = CHR ''^'' then 0
      else if ops ! 0 = CHR ''*'' \<or> ops ! 0 = CHR ''/'' then 0
      else if ops ! 1 = CHR ''*'' \<or> ops ! 1 = CHR ''/'' then 1
      else 0)"

text \<open>
  \<open>arithmetic_op(operator, a, b, result)\<close>: the value of \<open>*result\<close> after the call. The
  \<open>default\<close> case prints a message and leaves \<open>*result\<close> as it was.
\<close>

definition arithmetic_op :: "'d arith \<Rightarrow> char \<Rightarrow> 'd \<Rightarrow> 'd \<Rightarrow> 'd \<Rightarrow> 'd" where
  "arithmetic_op ar operator a b result =
     (if operator = CHR ''+'' then add_d ar a b
      else if operator = CHR ''-'' then sub_d ar a b
      else if operator = CHR ''*'' then mul_d ar a b
      else if operator = CHR ''/'' then div_d ar a b
      else if operator = CHR ''^'' then pow_d ar a b
      else result)"

definition shift_window :: "'d arith \<Rightarrow> nat \<Rightarrow> 'd window \<Rightarrow> 'd window" where
  "shift_window ar mode w =
     (let w' =
        (if mode = 1 then
           (let w1 = set_operand w 1 (of_int_d ar 0);
                w2 = set_operator w1 0 (operators w1 ! 2);
                w3 = set_operator w2 1 CHR ''+''
            in w3\<lparr>window_at := 1\<rparr>)
         else if mode = 2 then
           (let w1 = set_operand w 1 (operands w ! 2);
                w2 = set_operator w1 0 (operators w1 ! 1);
                w3 = set_operator w2 1 (operators w2 ! 2)
            in w3\<lparr>window_at := 2\<rparr>)
         else if mode = 3 then
           (let w1 = set_operator w 1 (operators w ! 2)
            in w1\<lparr>window_at := 2\<rparr>)
         else w)
      in set_operator (set_operand w' 2 (of_int_d ar 0)) 2 CHR ''+'')"

text \<open>
  \<open>apply_op w i a b r\<close> is the call
  \<open>arithmetic_op(operators[i], &operands[a], &operands[b], &operands[r])\<close>.
\<close>

definition apply_op :: "'d arith \<Rightarrow> 'd window \<Rightarrow> nat \<Rightarrow> nat \<Rightarrow> nat \<Rightarrow> nat \<Rightarrow> 'd window" where
  "apply_op ar w i a b r =
     set_operand w r
       (arithmetic_op ar (operators w ! i) (operands w ! a) (operands w ! b) (operands w ! r))"

definition compute :: "'d arith \<Rightarrow> 'd window \<Rightarrow> 'd window" where
  "compute ar w =
     (let preced_id = highest_order_op (operators w) in
      if operators w ! 2 = CHR ''+'' \<or> operators w ! 2 = CHR ''-'' then
        (if preced_id = 0 then
           shift_window ar 1 (apply_op ar (apply_op ar w preced_id 0 1 0) 1 0 2 0)
         else if preced_id = 1 then
           shift_window ar 2 (apply_op ar (apply_op ar w preced_id 1 2 1) 0 0 1 0)
         else w)
      else if operators w ! 2 = CHR ''*'' \<or> operators w ! 2 = CHR ''/''
              \<or> operators w ! 2 = CHR ''^'' then
        (if preced_id = 0 \<and> (operators w ! 0 = CHR ''*'' \<or> operators w ! 0 = CHR ''/'') then
           (let w1 = apply_op ar w preced_id 0 1 0 in
            if operators w1 ! 1 = CHR ''*'' \<or> operators w1 ! 1 = CHR ''/'' then
              shift_window ar 1 (apply_op ar w1 1 0 2 0)
            else shift_window ar 2 w1)
         else if preced_id = 1 \<and> (operators w ! 1 = CHR ''*'' \<or> operators w ! 1 = CHR ''/''
                                   \<or> operators w ! 1 = CHR ''^'') then
           shift_window ar 3 (apply_op ar w preced_id 1 2 1)
         else shift_window ar 2 (apply_op ar w preced_id 0 1 0))
      else w)"

subsection \<open>calculate\<close>

definition init_window :: "'d arith \<Rightarrow> 'd window" where
  "init_window ar =
     \<lparr>operands = [of_int_d ar 0, of_int_d ar 0, of_int_d ar 0],
      operators = [CHR ''+'', CHR ''+'', CHR ''+''], window_at = 0\<rparr>"

text \<open>
  The \<open>do ... while\<close> loop of \<open>calculate\<close>, from a given window. The result is the
  status left in \<open>*status\<close>, the returned \<open>operands[0]\<close> and the rest of the stream;
  \<open>None\<close> stands for a run that never returns. A nested \<open>calculate(status)\<close> is the same
  loop from a fresh window, and the status it leaves is the one the caller reads
  afterwards, \<open>status\<close> being one shared variable. What follows each of the three nested
  calls is lines 58 to 61 and the loop condition: \<open>compute\<close>, the test of \<open>*status\<close>
  against the newline character, and \<open>while(*status != 's')\<close>.
\<close>

partial_function (option) calculate_loop ::
  "'d arith \<Rightarrow> 'd window \<Rightarrow> string \<Rightarrow> (char \<times> 'd \<times> string) option" where
  "calculate_loop ar w inp =
     (case parse_expr ar w inp of (status, w1, inp1) \<Rightarrow>
        if status = CHR ''>'' then
          calculate_loop ar (compute ar w1) inp1
        else if status = CHR ''n'' \<or> status = CHR ''c'' then
          (let w2 = compute ar w1 in Some (status, operands w2 ! 0, inp1))
        else if status = CHR ''o'' then
          (if contains_nest_op (operators w1) then
             (let w2 = set_operator w1 (window_at w1) CHR ''*'' in
              if window_at w2 < 2 then
                Option.bind (calculate_loop ar (init_window ar) inp1) (\<lambda>(status', r, inp2).
                  let w3 = compute ar (set_operand w2 (window_at w2 + 1) r) in
                  if status' = CHR 0x0A then Some (status', operands w3 ! 0, inp2)
                  else if status' \<noteq> CHR ''s'' then calculate_loop ar w3 inp2
                  else Some (status', operands w3 ! 0, inp2))
              else
                (let w2' = compute ar w2 in
                 Option.bind (calculate_loop ar (init_window ar) inp1) (\<lambda>(status', r, inp2).
                   let w3 = compute ar (set_operand w2' (window_at w2') r) in
                   if status' = CHR 0x0A then Some (status', operands w3 ! 0, inp2)
                   else if status' \<noteq> CHR ''s'' then calculate_loop ar w3 inp2
                   else Some (status', operands w3 ! 0, inp2))))
           else
             Option.bind (calculate_loop ar (init_window ar) inp1) (\<lambda>(status', r, inp2).
               let w3 = compute ar (set_operand w1 (window_at w1) r) in
               if status' = CHR 0x0A then Some (status', operands w3 ! 0, inp2)
               else if status' \<noteq> CHR ''s'' then calculate_loop ar w3 inp2
               else Some (status', operands w3 ! 0, inp2)))
        else if status \<noteq> CHR ''s'' then calculate_loop ar w1 inp1
        else Some (status, operands w1 ! 0, inp1))"

definition calculate :: "'d arith \<Rightarrow> string \<Rightarrow> (char \<times> 'd \<times> string) option" where
  "calculate ar inp = calculate_loop ar (init_window ar) inp"

section \<open>Vocabulary of the statements\<close>

text \<open>
  The five characters that the \<open>switch\<close> of \<open>parse_expr\<close> stores as operators, and the
  two that its blank loop skips.
\<close>

definition arith_operator :: "char \<Rightarrow> bool" where
  "arith_operator c =
     (c = CHR ''+'' \<or> c = CHR ''-'' \<or> c = CHR ''*'' \<or> c = CHR ''/'' \<or> c = CHR ''^'')"

definition blank :: "char \<Rightarrow> bool" where
  "blank c = (c = CHR '' '' \<or> c = CHR 0x09)"

text \<open>
  An operand literal is a string that \<open>parse_operand\<close> reads to its end as one operand:
  a sign, a digit or a dot, followed by digits with at most one dot in the whole string.
  Its value is what \<open>parse_operand\<close> leaves in \<open>*operand\<close>.
\<close>

fun digits_and_dot :: "bool \<Rightarrow> string \<Rightarrow> bool" where
  "digits_and_dot hasFractionalPart [] = True"
| "digits_and_dot hasFractionalPart (c # cs) =
     (if is_digit c then digits_and_dot hasFractionalPart cs
      else c = CHR ''.'' \<and> \<not> hasFractionalPart \<and> digits_and_dot True cs)"

definition operand_literal :: "string \<Rightarrow> bool" where
  "operand_literal l =
     (case l of [] \<Rightarrow> False
      | c # cs \<Rightarrow>
          if c = CHR ''.'' then digits_and_dot True cs
          else (c = CHR ''-'' \<or> c = CHR ''+'' \<or> is_digit c) \<and> digits_and_dot False cs)"

definition operand_value :: "'d arith \<Rightarrow> string \<Rightarrow> 'd" where
  "operand_value ar l =
     (case l of [] \<Rightarrow> of_int_d ar 0 | c # cs \<Rightarrow> fst (snd (parse_operand ar c cs)))"

text \<open>
  The number an operand literal denotes, read off its characters by position: the sign,
  the digits before the dot weighted by powers of ten, the digits after it by negative
  powers of ten.
\<close>

fun digits_value :: "string \<Rightarrow> real" where
  "digits_value [] = 0"
| "digits_value (c # cs) = real_of_int (digit_val c) * 10 ^ length cs + digits_value cs"

fun fraction_value :: "string \<Rightarrow> real" where
  "fraction_value [] = 0"
| "fraction_value (c # cs) = (real_of_int (digit_val c) + fraction_value cs) / 10"

definition literal_sign :: "string \<Rightarrow> real" where
  "literal_sign l = (if take 1 l = ''-'' then - 1 else 1)"

definition literal_body :: "string \<Rightarrow> string" where
  "literal_body l = (if take 1 l = ''-'' \<or> take 1 l = ''+'' then drop 1 l else l)"

definition integer_digits :: "string \<Rightarrow> string" where
  "integer_digits l = takeWhile is_digit (literal_body l)"

definition fraction_digits :: "string \<Rightarrow> string" where
  "fraction_digits l = drop 1 (dropWhile is_digit (literal_body l))"

definition literal_value :: "string \<Rightarrow> real" where
  "literal_value l =
     literal_sign l * (digits_value (integer_digits l) + fraction_value (fraction_digits l))"

text \<open>
  The \<open>switch\<close> of \<open>parse_expr\<close> on its own, as a function of the window after the
  operand was stored, the character after the blanks and the rest of the stream.
\<close>

definition operator_switch ::
  "'d arith \<Rightarrow> 'd window \<Rightarrow> char \<Rightarrow> string \<Rightarrow> char \<times> 'd window \<times> string" where
  "operator_switch ar w1 c inp2 =
     (if c = CHR ''^'' then parse_expr ar (store_operator w1 CHR ''^'') inp2
      else if c = CHR ''+'' then parse_expr ar (store_operator w1 CHR ''+'') inp2
      else if c = CHR ''-'' then parse_expr ar (store_operator w1 CHR ''-'') inp2
      else if c = CHR ''*'' then parse_expr ar (store_operator w1 CHR ''*'') inp2
      else if c = CHR ''/'' then parse_expr ar (store_operator w1 CHR ''/'') inp2
      else if c = CHR ''('' then (CHR ''o'', set_operator w1 (window_at w1) CHR ''('', inp2)
      else if c = CHR ''o'' then (CHR ''o'', w1, inp2)
      else if c = CHR '')'' then (CHR ''c'', w1, inp2)
      else if c = CHR 0x0A then (CHR ''n'', w1, inp2)
      else (CHR ''s'', w1, inp2))"

text \<open>A character that no \<open>case\<close> of the \<open>switch\<close> names and the blank loop does not skip.\<close>

definition unrecognized :: "char \<Rightarrow> bool" where
  "unrecognized c =
     (\<not> arith_operator c \<and> \<not> blank c \<and> c \<noteq> CHR ''('' \<and> c \<noteq> CHR ''o'' \<and> c \<noteq> CHR '')''
      \<and> c \<noteq> CHR 0x0A)"

text \<open>The five values that \<open>parse_expr\<close> returns.\<close>

definition statuses :: "char set" where
  "statuses = {CHR ''s'', CHR ''o'', CHR ''c'', CHR ''n'', CHR ''>''}"

text \<open>
  The window as \<open>calculate\<close> keeps it between two steps: three operands, three
  operators that are all arithmetic, and a cursor of at most 3.
\<close>

definition window_ok :: "'d window \<Rightarrow> bool" where
  "window_ok w =
     (length (operands w) = 3 \<and> length (operators w) = 3 \<and> window_at w \<le> 3
      \<and> list_all arith_operator (operators w))"

section \<open>Reading one operand and one operator\<close>

lemmas window_defs = set_operand_def set_operator_def store_operator_def apply_op_def

lemmas compute_defs = compute_def shift_window_def highest_order_op_def arithmetic_op_def

lemmas run_defs = calculate_def init_window_def operator_switch_def window_defs compute_defs
  contains_nest_op_def Let_def

text \<open>
  \<open>parse_expr\<close> is unfolded by hand, one iteration at a time.
\<close>

declare parse_expr.simps [simp del]

subsection \<open>An operand literal in front of another character\<close>

lemma not_digit_dot [simp]: "\<not> is_digit CHR ''.''"
  by (simp add: is_digit_def)

lemma operand_loop_literal:
  "digits_and_dot hf cs \<Longrightarrow> \<not> is_digit t \<Longrightarrow> t \<noteq> CHR ''.'' \<Longrightarrow>
   operand_loop ar s v hf e (cs @ t # rest) = (t, fst (snd (operand_loop ar s v hf e cs)), rest)"
proof (induction cs arbitrary: v hf e)
  case Nil
  then show ?case by simp
next
  case (Cons c cs)
  then show ?case by (auto split: if_splits)
qed

lemma parse_operand_literal:
  assumes "operand_literal (c # cs)" and "\<not> is_digit t" and "t \<noteq> CHR ''.''"
  shows "parse_operand ar c (cs @ t # rest) = (t, operand_value ar (c # cs), rest)"
  using assms
  by (auto simp: operand_literal_def operand_value_def parse_operand_def operand_loop_literal
      split: if_splits)

subsection \<open>The blank loop\<close>

lemma skip_blanks_other: "\<not> blank c \<Longrightarrow> skip_blanks c inp = (c, inp)"
  by (cases inp) (simp_all add: blank_def)

lemma skip_blanks_run:
  "blank b \<Longrightarrow> list_all blank bs \<Longrightarrow> \<not> blank t \<Longrightarrow> skip_blanks b (bs @ t # rest) = (t, rest)"
proof (induction bs arbitrary: b)
  case Nil
  then show ?case by (cases rest) (simp_all add: blank_def)
next
  case (Cons x xs)
  then show ?case by (simp add: blank_def)
qed

lemma blank_facts: "blank b \<Longrightarrow> \<not> is_digit b \<and> b \<noteq> CHR ''.'' \<and> b \<noteq> CHR ''s''"
  by (auto simp: blank_def is_digit_def)

subsection \<open>One iteration of \<open>parse_expr\<close>\<close>

lemma parse_expr_step:
  assumes "window_at w < 3" and "parse_operand ar c inp0 = (c1, v, inp1)"
    and "c1 \<noteq> CHR ''s''" and "skip_blanks c1 inp1 = (t, inp2)"
  shows "parse_expr ar w (c # inp0) = operator_switch ar (set_operand w (window_at w) v) t inp2"
  using assms
  by (subst parse_expr.simps)
     (simp add: getchar_def operator_switch_def Let_def split del: if_split)

lemma parse_expr_step_error:
  assumes "window_at w < 3" and "parse_operand ar c inp0 = (CHR ''s'', v, inp1)"
  shows "parse_expr ar w (c # inp0) = (CHR ''s'', set_operand w (window_at w) v, inp1)"
  using assms
  by (subst parse_expr.simps) (simp add: getchar_def Let_def split del: if_split)

lemma operator_switch_s: "operator_switch ar w1 CHR ''s'' inp2 = (CHR ''s'', w1, inp2)"
  by (simp add: operator_switch_def)

lemma parse_expr_literal_blanks:
  assumes lit: "operand_literal l" and bl: "list_all blank bs" and t: "\<not> blank t"
    and nd: "bs = [] \<Longrightarrow> \<not> is_digit t \<and> t \<noteq> CHR ''.''"
    and wa: "window_at w < 3"
  shows "parse_expr ar w (l @ bs @ t # rest)
         = operator_switch ar (set_operand w (window_at w) (operand_value ar l)) t rest"
proof -
  obtain c cs where l: "l = c # cs"
    using lit by (cases l) (simp_all add: operand_literal_def)
  show ?thesis
  proof (cases bs)
    case Nil
    with nd have "\<not> is_digit t" "t \<noteq> CHR ''.''" by simp_all
    then have po: "parse_operand ar c (cs @ t # rest) = (t, operand_value ar l, rest)"
      using lit unfolding l by (rule parse_operand_literal [rotated])
    show ?thesis
    proof (cases "t = CHR ''s''")
      case True
      then show ?thesis
        using parse_expr_step_error [OF wa, of ar c "cs @ t # rest" "operand_value ar l" rest] po Nil l
        by (simp add: operator_switch_s)
    next
      case False
      then show ?thesis
        using parse_expr_step [OF wa po False skip_blanks_other [OF t]] Nil l by simp
    qed
  next
    case (Cons b bs')
    then have b: "blank b" and bs': "list_all blank bs'" using bl by simp_all
    have po: "parse_operand ar c (cs @ b # bs' @ t # rest) = (b, operand_value ar l, bs' @ t # rest)"
      using lit blank_facts [OF b] unfolding l by (simp add: parse_operand_literal)
    have "b \<noteq> CHR ''s''" using blank_facts [OF b] by simp
    from parse_expr_step [OF wa po this skip_blanks_run [OF b bs' t]]
    show ?thesis using Cons l by simp
  qed
qed

lemma parse_expr_literal:
  assumes "operand_literal l" and "\<not> blank t" and "\<not> is_digit t" and "t \<noteq> CHR ''.''"
    and "window_at w < 3"
  shows "parse_expr ar w (l @ t # rest)
         = operator_switch ar (set_operand w (window_at w) (operand_value ar l)) t rest"
  using parse_expr_literal_blanks [of l "[]" t w ar rest] assms by simp

lemma char_facts [simp]:
  "\<not> blank CHR ''+''" "\<not> blank CHR ''-''" "\<not> blank CHR ''*''" "\<not> blank CHR ''/''"
  "\<not> blank CHR ''^''" "\<not> blank CHR ''(''" "\<not> blank CHR '')''" "\<not> blank CHR 0x0A"
  "\<not> is_digit CHR ''+''" "\<not> is_digit CHR ''-''" "\<not> is_digit CHR ''*''"
  "\<not> is_digit CHR ''/''" "\<not> is_digit CHR ''^''" "\<not> is_digit CHR ''(''"
  "\<not> is_digit CHR '')''" "\<not> is_digit CHR 0x0A"
  by (simp_all add: blank_def is_digit_def)

subsection \<open>The loop of \<open>calculate\<close> after \<open>parse_expr\<close>\<close>

lemma calculate_loop_error:
  "parse_expr ar w inp = (CHR ''s'', w', inp') \<Longrightarrow>
   calculate_loop ar w inp = Some (CHR ''s'', operands w' ! 0, inp')"
  by (subst calculate_loop.simps) simp

lemma calculate_loop_full:
  "parse_expr ar w inp = (CHR ''>'', w', inp') \<Longrightarrow>
   calculate_loop ar w inp = calculate_loop ar (compute ar w') inp'"
  by (subst calculate_loop.simps) simp

lemma parse_expr_full: "\<not> window_at w < 3 \<Longrightarrow> parse_expr ar w inp = (CHR ''>'', w, inp)"
  by (subst parse_expr.simps) simp

lemma parse_expr_star:
  assumes "window_at w < 3" and "m = CHR ''*'' \<or> m = CHR ''/''"
  shows "parse_expr ar w (m # rest) = (CHR ''s'', set_operand w (window_at w) (of_int_d ar 0), rest)"
  using assms
  by (subst parse_expr.simps) (auto simp: getchar_def parse_operand_def is_digit_def Let_def)

lemma compute_window_at:
  assumes "length (operands w) = 3" and "length (operators w) = 3"
    and "arith_operator (operators w ! 2)"
  shows "window_at (compute ar w) < 3"
  using assms
  by (auto simp: compute_defs window_defs arith_operator_def Let_def)

subsection \<open>The three malformations\<close>

lemma arith_operator_facts:
  "arith_operator t \<Longrightarrow> \<not> blank t \<and> \<not> is_digit t \<and> t \<noteq> CHR ''.''"
  unfolding arith_operator_def by (elim disjE) (simp_all add: blank_def is_digit_def)

lemma operator_switch_operator:
  "arith_operator t \<Longrightarrow>
   operator_switch ar w1 t inp2 = parse_expr ar (store_operator w1 t) inp2"
  unfolding arith_operator_def by (elim disjE) (simp_all add: operator_switch_def)

lemma operator_switch_unrecognized:
  "unrecognized c \<Longrightarrow> operator_switch ar w1 c inp2 = (CHR ''s'', w1, inp2)"
  by (simp add: unrecognized_def arith_operator_def operator_switch_def)

lemma consecutive_operators:
  assumes len: "length (operands w) = 3" "length (operators w) = 3" and wa: "window_at w < 3"
    and a: "operand_literal a" and t: "arith_operator t" and m: "m = CHR ''*'' \<or> m = CHR ''/''"
  shows "\<exists>v. calculate_loop ar w (a @ t # m # rest) = Some (CHR ''s'', v, rest)"
proof -
  let ?w1 = "store_operator (set_operand w (window_at w) (operand_value ar a)) t"
  have pe: "parse_expr ar w (a @ t # m # rest) = parse_expr ar ?w1 (m # rest)"
    using arith_operator_facts [OF t] a wa
    by (simp add: parse_expr_literal operator_switch_operator [OF t])
  show ?thesis
  proof (cases "window_at ?w1 < 3")
    case True
    from parse_expr_star [OF True m] pe
    show ?thesis by (simp add: calculate_loop_error)
  next
    case False
    then have wa2: "window_at w = 2" using wa by (simp add: window_defs)
    let ?w2 = "compute ar ?w1"
    have "window_at ?w2 < 3"
      using len t wa2 by (intro compute_window_at) (simp_all add: window_defs)
    from parse_expr_star [OF this m]
    have "calculate_loop ar ?w2 (m # rest)
          = Some (CHR ''s'', operands (set_operand ?w2 (window_at ?w2) (of_int_d ar 0)) ! 0, rest)"
      by (rule calculate_loop_error)
    moreover have "calculate_loop ar w (a @ t # m # rest) = calculate_loop ar ?w2 (m # rest)"
      using pe parse_expr_full [OF False] by (simp add: calculate_loop_full)
    ultimately show ?thesis by simp
  qed
qed

lemma operand_loop_second_dot:
  "digits_and_dot hf cs \<Longrightarrow> hf \<or> CHR ''.'' \<in> set cs \<Longrightarrow>
   fst (operand_loop ar s x hf e (cs @ CHR ''.'' # rest)) = CHR ''s''
   \<and> snd (snd (operand_loop ar s x hf e (cs @ CHR ''.'' # rest))) = rest"
proof (induction cs arbitrary: x hf e)
  case Nil
  then show ?case by simp
next
  case (Cons c cs)
  then show ?case by (cases "is_digit c") auto
qed

lemma parse_operand_second_dot:
  assumes "operand_literal (c # cs)" and "CHR ''.'' \<in> set (c # cs)"
  shows "fst (parse_operand ar c (cs @ CHR ''.'' # rest)) = CHR ''s''
         \<and> snd (snd (parse_operand ar c (cs @ CHR ''.'' # rest))) = rest"
proof (cases "c = CHR ''.''")
  case True
  then have "digits_and_dot True cs" using assms by (simp add: operand_literal_def)
  then show ?thesis
    using True by (simp add: parse_operand_def operand_loop_second_dot)
next
  case False
  then have dd: "digits_and_dot False cs" and dot: "CHR ''.'' \<in> set cs"
    and c: "c = CHR ''-'' \<or> c = CHR ''+'' \<or> is_digit c"
    using assms by (simp_all add: operand_literal_def)
  from dot have "False \<or> CHR ''.'' \<in> set cs" by simp
  note sd = operand_loop_second_dot [OF dd this]
  have "c \<noteq> CHR ''*''" "c \<noteq> CHR ''/''" "c \<noteq> CHR ''(''"
    using c by (auto simp: is_digit_def)
  then show ?thesis
    using False c by (auto simp: parse_operand_def sd)
qed

lemma second_dot:
  assumes wa: "window_at w < 3" and a: "operand_literal a" and dot: "CHR ''.'' \<in> set a"
  shows "\<exists>v. calculate_loop ar w (a @ CHR ''.'' # rest) = Some (CHR ''s'', v, rest)"
proof -
  obtain c cs where l: "a = c # cs"
    using a by (cases a) (simp_all add: operand_literal_def)
  have "fst (parse_operand ar c (cs @ CHR ''.'' # rest)) = CHR ''s''
         \<and> snd (snd (parse_operand ar c (cs @ CHR ''.'' # rest))) = rest"
    using a dot unfolding l by (rule parse_operand_second_dot)
  then obtain v where "parse_operand ar c (cs @ CHR ''.'' # rest) = (CHR ''s'', v, rest)"
    by (cases "parse_operand ar c (cs @ CHR ''.'' # rest)") simp
  from parse_expr_step_error [OF wa this] show ?thesis
    unfolding l by (simp add: calculate_loop_error)
qed

lemma unrecognized_character:
  assumes wa: "window_at w < 3" and a: "operand_literal a" and bs: "list_all blank bs"
    and c: "unrecognized c" and nd: "bs = [] \<Longrightarrow> \<not> is_digit c \<and> c \<noteq> CHR ''.''"
  shows "calculate_loop ar w (a @ bs @ c # rest)
         = Some (CHR ''s'', operands (set_operand w (window_at w) (operand_value ar a)) ! 0, rest)"
proof -
  have "\<not> blank c" using c by (simp add: unrecognized_def)
  from parse_expr_literal_blanks [OF a bs this nd wa]
  have "parse_expr ar w (a @ bs @ c # rest)
        = (CHR ''s'', set_operand w (window_at w) (operand_value ar a), rest)"
    by (simp add: operator_switch_unrecognized [OF c])
  then show ?thesis by (rule calculate_loop_error)
qed

lemma nested_error:
  assumes "parse_expr ar w inp = (CHR ''o'', w1, inp1)"
    and "calculate ar inp1 = Some (CHR ''s'', r, inp2)"
  shows "\<exists>v. calculate_loop ar w inp = Some (CHR ''s'', v, inp2)"
  using assms
  by (subst calculate_loop.simps) (simp add: calculate_def Let_def)

lemma operator_switch_digit:
  "is_digit d \<or> d = CHR ''.'' \<Longrightarrow> operator_switch ar w1 d rest = (CHR ''s'', w1, rest)"
proof -
  assume "is_digit d \<or> d = CHR ''.''"
  then have "d \<noteq> CHR ''^''" "d \<noteq> CHR ''+''" "d \<noteq> CHR ''-''" "d \<noteq> CHR ''*''" "d \<noteq> CHR ''/''"
    "d \<noteq> CHR ''(''" "d \<noteq> CHR ''o''" "d \<noteq> CHR '')''" "d \<noteq> CHR 0x0A"
    by (auto simp: is_digit_def)
  then show ?thesis by (simp add: operator_switch_def)
qed

subsection \<open>A parenthesis or a newline where an operand is expected\<close>

lemma parse_expr_open:
  "window_at w < 3 \<Longrightarrow>
   parse_expr ar w (CHR ''('' # inp) = (CHR ''o'', set_operand w (window_at w) (of_int_d ar 0), inp)"
  by (subst parse_expr.simps)
     (simp add: getchar_def parse_operand_def is_digit_def skip_blanks_other blank_def Let_def)

lemma calculate_loop_newline:
  "window_at w < 3 \<Longrightarrow>
   calculate_loop ar w (CHR 0x0A # rest)
   = Some (CHR ''n'', operands (compute ar (set_operand w (window_at w) (of_int_d ar 0))) ! 0, rest)"
  by (subst calculate_loop.simps, subst parse_expr.simps)
     (simp add: getchar_def parse_operand_def is_digit_def skip_blanks_other blank_def Let_def)

subsection \<open>Runs on a given input\<close>

text \<open>Unfolding everything, for runs on a given input.\<close>

lemmas eval_defs = run_defs parse_expr.simps getchar_def parse_operand_def is_digit_def
  digit_val_def EOF_char_def exact_def calculate_loop.simps

lemmas literal_defs = operand_literal_def operand_value_def parse_operand_def is_digit_def
  digit_val_def EOF_char_def exact_def

section \<open>Precedence and grouping\<close>

text \<open>
  On an input without blanks the two precedence classes of C1 are honoured, for every
  arithmetic: \<open>a+b*c\<close> is \<open>a + (b*c)\<close> and \<open>a*b+c\<close> is \<open>(a*b) + c\<close>.
\<close>

lemma precedence_without_blanks:
  assumes "operand_literal a" and "operand_literal b" and "operand_literal c"
  shows "calculate ar (a @ ''+'' @ b @ ''*'' @ c @ ''\<newline>'')
         = Some (CHR ''n'',
             add_d ar (operand_value ar a) (mul_d ar (operand_value ar b) (operand_value ar c)), [])
       \<and> calculate ar (a @ ''*'' @ b @ ''+'' @ c @ ''\<newline>'')
         = Some (CHR ''n'',
             add_d ar (mul_d ar (operand_value ar a) (operand_value ar b)) (operand_value ar c), [])"
  using assms
  by (simp add: run_defs calculate_loop.simps parse_expr_literal)

text \<open>
  C1. Precedence between the classes is honoured, and the input \<open>1 + 2 * 3\<close> followed by
  a newline returns 7 with a success status. The code does not do the second: the blank
  after \<open>+\<close> is read where an operand is expected, \<open>parse_operand\<close> hands it back with
  an operand of 0, the blank loop skips it, and the digit 2 then stands where the
  \<open>switch\<close> wants an operator. The run ends with status \<open>s\<close> and \<open>operands[0] = 1\<close>.
  The same input without blanks returns 7.
\<close>

theorem precedence_example_rejected:
  "calculate exact ''1 + 2 * 3\<newline>'' = Some (CHR ''s'', 1, '' * 3\<newline>'')
   \<and> calculate exact ''1+2*3\<newline>'' = Some (CHR ''n'', 7, [])"
  by (simp add: eval_defs)

text \<open>
  Three operands of one class on an input without blanks, for all operand literals \<open>a\<close>,
  \<open>b\<close>, \<open>c\<close> and every arithmetic: \<open>a-b-c\<close> is \<open>(a-b)-c\<close> and \<open>a/b/c\<close> is \<open>(a/b)/c\<close>,
  but \<open>a^b^c\<close> is \<open>a^(b^c)\<close>. \<open>highest_order_op\<close> looks at \<open>operators[1]\<close> before
  \<open>operators[0]\<close> for \<open>^\<close>, and at \<open>operators[0]\<close> before \<open>operators[1]\<close> for \<open>*\<close> and
  \<open>/\<close>.
\<close>

lemma grouping_of_three_operands:
  assumes "operand_literal a" and "operand_literal b" and "operand_literal c"
  shows "calculate ar (a @ ''-'' @ b @ ''-'' @ c @ ''\<newline>'')
         = Some (CHR ''n'',
             sub_d ar (sub_d ar (operand_value ar a) (operand_value ar b)) (operand_value ar c), [])
       \<and> calculate ar (a @ ''/'' @ b @ ''/'' @ c @ ''\<newline>'')
         = Some (CHR ''n'',
             div_d ar (div_d ar (operand_value ar a) (operand_value ar b)) (operand_value ar c), [])
       \<and> calculate ar (a @ ''^'' @ b @ ''^'' @ c @ ''\<newline>'')
         = Some (CHR ''n'',
             pow_d ar (operand_value ar a) (pow_d ar (operand_value ar b) (operand_value ar c)), [])"
  using assms
  by (simp add: run_defs calculate_loop.simps parse_expr_literal)

text \<open>
  The collapse of a full window whose trailing operator is \<open>+\<close> or \<open>-\<close> and whose second
  operator binds tighter applies both operators and then shifts in mode 2, which keeps
  the third operand and the second operator in the window: \<open>a+b*c+d\<close> is
  \<open>(a + b*c) * c + d\<close>, and \<open>1+2*3+4\<close> returns 25.
\<close>

lemma sum_product_sum:
  assumes "operand_literal a" and "operand_literal b" and "operand_literal c"
    and "operand_literal d"
  shows "calculate ar (a @ ''+'' @ b @ ''*'' @ c @ ''+'' @ d @ ''\<newline>'')
         = Some (CHR ''n'',
             add_d ar (mul_d ar (add_d ar (operand_value ar a)
               (mul_d ar (operand_value ar b) (operand_value ar c))) (operand_value ar c))
               (operand_value ar d), [])"
proof -
  have p: "parse_expr ar (init_window ar) (a @ ''+'' @ b @ ''*'' @ c @ ''+'' @ d @ ''\<newline>'')
        = (CHR ''>'',
           \<lparr>operands = [operand_value ar a, operand_value ar b, operand_value ar c],
            operators = ''+*+'', window_at = 3\<rparr>, d @ ''\<newline>'')"
    using assms
    by (simp add: parse_expr_literal parse_expr_full operator_switch_def init_window_def
        window_defs)
  show ?thesis
    unfolding calculate_def
    apply (subst calculate_loop_full [OF p])
    using assms
    apply (simp add: run_defs calculate_loop.simps parse_expr_literal)
    done
qed

lemma sum_product_sum_example:
  "calculate exact ''1+2*3+4\<newline>'' = Some (CHR ''n'', 25, [])"
  by (simp add: eval_defs)

text \<open>
  C2. Evaluation within a class is left to right also for \<open>^\<close>, and \<open>2 ^ 3 ^ 2\<close> returns
  \<open>(2^3)^2 = 64\<close>. The code does not do it. Without blanks \<open>2^3^2\<close> returns
  \<open>2^(3^2) = 512\<close>: with \<open>^\<close> in both live slots \<open>highest_order_op\<close> answers 1, where
  with \<open>*\<close> in both it answers 0. With the blanks of the claim the run ends with status
  \<open>s\<close>. After another operand the left power is taken first, in the branch of \<open>compute\<close>
  for a full window: \<open>1+2^3^2\<close> returns \<open>1 + (2^3)^2 = 65\<close> and \<open>2*2^3^2\<close> returns
  \<open>2 * (2^3)^2 = 128\<close>; \<open>2^2^3^2\<close> returns \<open>2^64\<close>.
\<close>

theorem power_tie_break_takes_right:
  "calculate exact ''2^3^2\<newline>'' = Some (CHR ''n'', 512, [])
   \<and> calculate exact ''2 ^ 3 ^ 2\<newline>'' = Some (CHR ''s'', 2, '' ^ 2\<newline>'')
   \<and> calculate exact ''1+2^3^2\<newline>'' = Some (CHR ''n'', 65, [])
   \<and> calculate exact ''2*2^3^2\<newline>'' = Some (CHR ''n'', 128, [])
   \<and> calculate exact ''2^2^3^2\<newline>'' = Some (CHR ''n'', 2 ^ 64, [])
   \<and> highest_order_op ''^^+'' = 1
   \<and> highest_order_op ''**+'' = 0"
  by (simp add: eval_defs)

section \<open>Parentheses\<close>

text \<open>
  A parenthesised expression that is the whole input keeps its value, up to the
  additions of the empty slots' 0 that the two collapses perform.
\<close>

lemma parenthesised_expression:
  assumes "calculate ar (E @ '')'' @ rest) = Some (CHR ''c'', v, rest)"
    and "rest = CHR 0x0A # rest'"
  shows "calculate ar (''('' @ E @ '')'' @ rest)
         = Some (CHR ''n'',
             add_d ar (add_d ar (add_d ar (add_d ar v (of_int_d ar 0)) (of_int_d ar 0))
               (of_int_d ar 0)) (of_int_d ar 0), rest')"
  using assms
  apply (simp add: calculate_def)
  apply (subst calculate_loop.simps)
  apply (simp add: parse_expr.simps getchar_def parse_operand_def is_digit_def run_defs
      skip_blanks_other blank_def)
  apply (subst calculate_loop.simps)
  apply (simp add: parse_expr.simps getchar_def parse_operand_def is_digit_def run_defs
      skip_blanks_other blank_def)
  done

text \<open>
  After the closing parenthesis the loop of \<open>calculate\<close> calls \<open>parse_expr\<close> again, which
  starts by reading an operand. A \<open>*\<close> or \<open>/\<close> there is the first character of an
  operand for \<open>parse_operand\<close>, which answers \<open>s\<close>.
\<close>

lemma operator_after_parenthesis:
  assumes "calculate ar (E @ '')'' @ m # rest) = Some (CHR ''c'', v, m # rest)"
    and "m = CHR ''*'' \<or> m = CHR ''/''"
  shows "calculate ar (''('' @ E @ '')'' @ m # rest)
         = Some (CHR ''s'', add_d ar (add_d ar v (of_int_d ar 0)) (of_int_d ar 0), rest)"
proof -
  have "parse_expr ar (init_window ar) (''('' @ E @ '')'' @ m # rest)
        = (CHR ''o'', init_window ar, E @ '')'' @ m # rest)"
    by (simp add: parse_expr.simps getchar_def parse_operand_def is_digit_def run_defs
        skip_blanks_other blank_def)
  then show ?thesis
    using assms(1) parse_expr_star [OF _ assms(2), of _ ar rest]
    unfolding calculate_def
    by (subst calculate_loop.simps) (simp add: run_defs calculate_loop_error)
qed

text \<open>
  C3. A parenthesised sub-expression evaluates like the expression inside it in any
  context, and \<open>(1 + 2) * 3\<close> returns 9 with a success status. The code does not do
  it: in front of \<open>*\<close> the value 3 multiplies to 9, the parenthesised \<open>(1+2)\<close> in the
  same place ends the run with status \<open>s\<close> and the value 3, with or without blanks.
\<close>

theorem parenthesis_then_operator_rejected:
  "calculate exact ''(1+2)*3\<newline>'' = Some (CHR ''s'', 3, ''3\<newline>'')
   \<and> calculate exact ''(1 + 2) * 3\<newline>'' = Some (CHR ''s'', 1, '') * 3\<newline>'')
   \<and> calculate exact ''3*3\<newline>'' = Some (CHR ''n'', 9, [])"
  by (simp add: eval_defs)

section \<open>Blanks\<close>

text \<open>
  Blanks between an operand and the character after it are skipped, in every state of
  the loop. A blank where an operand is expected is not: with a digit or a dot after
  the blanks the run ends with status \<open>s\<close>.
\<close>

lemma blanks_before_operator_skipped:
  assumes "operand_literal a" and "list_all blank bs" and "\<not> blank t"
    and "\<not> is_digit t" and "t \<noteq> CHR ''.''" and "window_at w < 3"
  shows "calculate_loop ar w (a @ bs @ t # rest) = calculate_loop ar w (a @ t # rest)"
proof -
  have "parse_expr ar w (a @ bs @ t # rest) = parse_expr ar w (a @ t # rest)"
    using assms by (simp add: parse_expr_literal_blanks parse_expr_literal)
  then show ?thesis
    by (simp add: calculate_loop.simps [of ar w "a @ bs @ t # rest"]
        calculate_loop.simps [of ar w "a @ t # rest"])
qed

lemma blank_before_operand:
  assumes "window_at w < 3" and "blank b" and "list_all blank bs"
    and "is_digit d \<or> d = CHR ''.''"
  shows "calculate_loop ar w (b # bs @ d # rest)
         = Some (CHR ''s'', operands (set_operand w (window_at w) (of_int_d ar 0)) ! 0, rest)"
proof -
  have d: "\<not> blank d" using assms(4) by (auto simp: blank_def is_digit_def)
  have po: "parse_operand ar b (bs @ d # rest) = (b, of_int_d ar 0, bs @ d # rest)"
    using assms(2) by (auto simp: parse_operand_def blank_def is_digit_def)
  have bs: "b \<noteq> CHR ''s''" using blank_facts [OF assms(2)] by simp
  from parse_expr_step [OF assms(1) po bs skip_blanks_run [OF assms(2,3) d]]
  have "parse_expr ar w (b # bs @ d # rest)
        = (CHR ''s'', set_operand w (window_at w) (of_int_d ar 0), rest)"
    by (simp add: operator_switch_digit [OF assms(4)])
  then show ?thesis by (rule calculate_loop_error)
qed

text \<open>
  C4. Inserting blanks at any position that is not inside an operand leaves the result
  and the status as they were. The code does not do it for a blank between an operator
  and the operand after it: \<open>1+2\<close> and \<open>1 +2\<close> return 3, \<open>1+ 2\<close> ends with status
  \<open>s\<close> and the value 1.
\<close>

theorem blank_after_operator_rejected:
  "calculate exact ''1+2\<newline>'' = Some (CHR ''n'', 3, [])
   \<and> calculate exact ''1 +2\<newline>'' = Some (CHR ''n'', 3, [])
   \<and> calculate exact ''1+ 2\<newline>'' = Some (CHR ''s'', 1, ''\<newline>'')"
  by (simp add: eval_defs)

section \<open>Implicit multiplication\<close>

text \<open>
  At the start of an expression: the product that \<open>a(E)\<close> and \<open>a*(E)\<close> return when
  they are the whole input, and the equality of the two forms in front of any stream.
\<close>

lemma implicit_product:
  assumes a: "operand_literal a"
    and E: "calculate ar (E @ '')\<newline>'') = Some (CHR ''c'', v, ''\<newline>'')"
  shows "calculate ar (a @ ''('' @ E @ '')\<newline>'')
         = Some (CHR ''n'',
             add_d ar (add_d ar (add_d ar (mul_d ar (operand_value ar a) v) (of_int_d ar 0))
               (of_int_d ar 0)) (of_int_d ar 0), [])
       \<and> calculate ar (a @ ''*('' @ E @ '')\<newline>'')
         = Some (CHR ''n'',
             add_d ar (add_d ar (add_d ar (mul_d ar (operand_value ar a) v) (of_int_d ar 0))
               (of_int_d ar 0)) (of_int_d ar 0), [])"
proof
  have "parse_expr ar (init_window ar) (a @ ''('' @ E @ '')\<newline>'')
        = (CHR ''o'',
           set_operator (set_operand (init_window ar) 0 (operand_value ar a)) 0 CHR ''('',
           E @ '')\<newline>'')"
    using a by (simp add: parse_expr_literal operator_switch_def init_window_def window_defs)
  then show "calculate ar (a @ ''('' @ E @ '')\<newline>'')
         = Some (CHR ''n'',
             add_d ar (add_d ar (add_d ar (mul_d ar (operand_value ar a) v) (of_int_d ar 0))
               (of_int_d ar 0)) (of_int_d ar 0), [])"
    using E unfolding calculate_def
    by (subst calculate_loop.simps) (simp add: calculate_loop_newline run_defs)
next
  have "parse_expr ar (init_window ar) (a @ ''*('' @ E @ '')\<newline>'')
        = (CHR ''o'',
           set_operand (store_operator (set_operand (init_window ar) 0 (operand_value ar a))
             CHR ''*'') 1 (of_int_d ar 0),
           E @ '')\<newline>'')"
    using a
    by (simp add: parse_expr_literal operator_switch_def parse_expr_open init_window_def
        window_defs)
  then show "calculate ar (a @ ''*('' @ E @ '')\<newline>'')
         = Some (CHR ''n'',
             add_d ar (add_d ar (add_d ar (mul_d ar (operand_value ar a) v) (of_int_d ar 0))
               (of_int_d ar 0)) (of_int_d ar 0), [])"
    using E unfolding calculate_def
    by (subst calculate_loop.simps) (simp add: calculate_loop_newline run_defs)
qed

lemma implicit_is_explicit:
  assumes a: "operand_literal a"
  shows "calculate ar (a @ ''('' @ R) = calculate ar (a @ ''*('' @ R)"
proof -
  let ?w = "set_operand (init_window ar) 0 (operand_value ar a)"
  have p1: "parse_expr ar (init_window ar) (a @ ''('' @ R)
        = (CHR ''o'', set_operator ?w 0 CHR ''('', R)"
    using a by (simp add: parse_expr_literal operator_switch_def init_window_def window_defs)
  have p2: "parse_expr ar (init_window ar) (a @ ''*('' @ R)
        = (CHR ''o'', set_operand (store_operator ?w CHR ''*'') 1 (of_int_d ar 0), R)"
    using a
    by (simp add: parse_expr_literal operator_switch_def parse_expr_open init_window_def
        window_defs)
  have "calculate_loop ar (init_window ar) (a @ ''('' @ R)
        = Option.bind (calculate_loop ar (init_window ar) R) (\<lambda>(status', r, inp2).
            let w3 = \<lparr>operands = [add_d ar (mul_d ar (operand_value ar a) r) (of_int_d ar 0),
                        of_int_d ar 0, of_int_d ar 0],
                      operators = ''+++'', window_at = 1\<rparr> in
            if status' = CHR 0x0A then Some (status', operands w3 ! 0, inp2)
            else if status' \<noteq> CHR ''s'' then calculate_loop ar w3 inp2
            else Some (status', operands w3 ! 0, inp2))"
    using p1 by (subst calculate_loop.simps) (simp add: run_defs cong: Option.bind_cong)
  moreover have "calculate_loop ar (init_window ar) (a @ ''*('' @ R)
        = Option.bind (calculate_loop ar (init_window ar) R) (\<lambda>(status', r, inp2).
            let w3 = \<lparr>operands = [add_d ar (mul_d ar (operand_value ar a) r) (of_int_d ar 0),
                        of_int_d ar 0, of_int_d ar 0],
                      operators = ''+++'', window_at = 1\<rparr> in
            if status' = CHR 0x0A then Some (status', operands w3 ! 0, inp2)
            else if status' \<noteq> CHR ''s'' then calculate_loop ar w3 inp2
            else Some (status', operands w3 ! 0, inp2))"
    using p2 by (subst calculate_loop.simps) (simp add: run_defs cong: Option.bind_cong)
  ultimately show ?thesis by (simp add: calculate_def)
qed

text \<open>
  After a sum the product is not what comes back. The collapse that follows the nested
  call applies both operators and shifts in mode 2, which keeps the nested value and the
  \<open>*\<close> in the window; the status is \<open>c\<close>, so the loop reads on, and the collapse at the
  newline multiplies once more: \<open>a+b(E)\<close> returns \<open>(a + b*v) * v + 0\<close>.
\<close>

lemma implicit_product_after_sum:
  assumes a: "operand_literal a" and b: "operand_literal b"
    and E: "calculate ar (E @ '')\<newline>'') = Some (CHR ''c'', v, ''\<newline>'')"
  shows "calculate ar (a @ ''+'' @ b @ ''('' @ E @ '')\<newline>'')
         = Some (CHR ''n'',
             add_d ar (mul_d ar (add_d ar (operand_value ar a)
               (mul_d ar (operand_value ar b) v)) v) (of_int_d ar 0), [])"
proof -
  have "parse_expr ar (init_window ar) (a @ ''+'' @ b @ ''('' @ E @ '')\<newline>'')
        = (CHR ''o'',
           set_operator (set_operand (store_operator
             (set_operand (init_window ar) 0 (operand_value ar a)) CHR ''+'') 1
             (operand_value ar b)) 1 CHR ''('',
           E @ '')\<newline>'')"
    using a b by (simp add: parse_expr_literal operator_switch_def init_window_def window_defs)
  then show ?thesis
    using E unfolding calculate_def
    by (subst calculate_loop.simps) (simp add: calculate_loop_newline run_defs)
qed

text \<open>
  C5. An operand directly followed by an opening parenthesis multiplies: \<open>a(E)\<close> evaluates
  to \<open>a*E\<close>, and \<open>3(4+1)\<close> returns 15. The code returns 15 on that input, and does not do
  it in general: \<open>2+3(4+1)\<close> returns \<open>(2 + 3*5) * 5 = 85\<close> where \<open>2+3*5\<close> returns 17, and
  so does the explicit \<open>2+3*(4+1)\<close>; \<open>3(1+2*3+4)\<close> returns \<open>3 * 25 = 75\<close>, the nested
  call returning 25 for \<open>1+2*3+4\<close>.
\<close>

theorem implicit_multiplication_after_sum:
  "calculate exact ''3(4+1)\<newline>'' = Some (CHR ''n'', 15, [])
   \<and> calculate exact ''2+3(4+1)\<newline>'' = Some (CHR ''n'', 85, [])
   \<and> calculate exact ''2+3*(4+1)\<newline>'' = Some (CHR ''n'', 85, [])
   \<and> calculate exact ''2+3*5\<newline>'' = Some (CHR ''n'', 17, [])
   \<and> calculate exact ''3(1+2*3+4)\<newline>'' = Some (CHR ''n'', 75, [])"
  by (simp add: eval_defs)

section \<open>Operands\<close>

text \<open>
  In exact arithmetic \<open>parse_operand\<close> computes the number the literal denotes, as long
  as the fraction has at most 127 digits, so that \<open>exponent\<close> does not wrap; the input
  made of such a literal and a newline returns that number.
\<close>

lemma unat_succ: "unat (e :: 8 word) < 127 \<Longrightarrow> unat (e + 1) = unat e + 1"
  by (simp add: unat_word_ariths)

lemma sint_succ: "unat (e :: 8 word) < 127 \<Longrightarrow> sint (e + 1) = int (unat e) + 1"
proof -
  assume a: "unat e < 127"
  then have u: "unat (e + 1) = unat e + 1" by (rule unat_succ)
  from a have a': "int (unat e) < 127" by linarith
  have "sint (e + 1) = signed_take_bit 7 (uint (e + 1))"
    by (simp add: sint_uint)
  also have "uint (e + 1) = int (unat e) + 1"
    using u by (metis of_nat_Suc Suc_eq_plus1 of_nat_unat add.commute of_nat_1 of_nat_add)
  also have "signed_take_bit 7 (int (unat e) + 1) = int (unat e) + 1"
    using a' by (intro signed_take_bit_int_eq_self) simp_all
  finally show ?thesis .
qed

lemma operand_loop_digits:
  "list_all is_digit ds \<Longrightarrow>
   operand_loop exact s v False e (ds @ r)
   = operand_loop exact s (v * 10 ^ length ds + digits_value ds) False e r"
proof (induction ds arbitrary: v)
  case Nil
  then show ?case by simp
next
  case (Cons c cs)
  then show ?case by (simp add: exact_def algebra_simps)
qed

lemma operand_loop_fraction:
  "list_all is_digit fs \<Longrightarrow> unat e + length fs \<le> 127 \<Longrightarrow>
   operand_loop exact s v True e (fs @ r)
   = operand_loop exact s (v + fraction_value fs / 10 ^ unat e) True (e + of_nat (length fs)) r"
proof (induction fs arbitrary: v e)
  case Nil
  then show ?case by simp
next
  case (Cons c cs)
  define k where "k = unat e"
  from Cons.prems have e: "unat e < 127" by simp
  have sk: "sint (e + 1) = int k + 1" and uk: "unat (e + 1) = k + 1"
    using sint_succ [OF e] unat_succ [OF e] by (simp_all add: k_def)
  have p: "pow_d exact (of_int_d exact 10) (of_int_d exact (sint (e + 1))) = 10 * 10 ^ k"
    unfolding sk by (simp add: exact_def powr_add powr_realpow)
  have "operand_loop exact s v True e ((c # cs) @ r)
        = operand_loop exact s (v + real_of_int (digit_val c) / (10 * 10 ^ k)) True (e + 1) (cs @ r)"
    using Cons.prems p by (simp add: exact_def)
  also have "\<dots> = operand_loop exact s
        (v + real_of_int (digit_val c) / (10 * 10 ^ k) + fraction_value cs / 10 ^ unat (e + 1))
        True (e + 1 + of_nat (length cs)) r"
    using Cons.prems uk by (intro Cons.IH) (simp_all add: k_def)
  also have "v + real_of_int (digit_val c) / (10 * 10 ^ k) + fraction_value cs / 10 ^ unat (e + 1)
             = v + fraction_value (c # cs) / 10 ^ unat e"
    unfolding uk by (simp add: k_def add_divide_distrib)
  finally show ?case by (simp add: ac_simps)
qed

lemma digits_and_dot_fraction: "digits_and_dot True cs \<Longrightarrow> list_all is_digit cs"
  by (induction cs) (auto split: if_splits)

lemma digits_and_dot_split:
  "digits_and_dot False cs \<Longrightarrow>
   dropWhile is_digit cs = []
   \<or> (dropWhile is_digit cs = CHR ''.'' # drop 1 (dropWhile is_digit cs)
      \<and> list_all is_digit (drop 1 (dropWhile is_digit cs)))"
  by (induction cs) (auto split: if_splits simp: digits_and_dot_fraction)

lemma list_all_takeWhile: "list_all P (takeWhile P xs)"
  by (induction xs) simp_all

lemma operand_loop_body:
  assumes dd: "digits_and_dot False cs"
    and len: "length (drop 1 (dropWhile is_digit cs)) \<le> 127"
  shows "operand_loop exact s v False 0 cs
         = (EOF_char,
            (v * 10 ^ length (takeWhile is_digit cs) + digits_value (takeWhile is_digit cs)
             + fraction_value (drop 1 (dropWhile is_digit cs))) * s, [])"
proof -
  let ?ds = "takeWhile is_digit cs" and ?r = "dropWhile is_digit cs"
  have "operand_loop exact s v False 0 (?ds @ ?r)
        = operand_loop exact s (v * 10 ^ length ?ds + digits_value ?ds) False 0 ?r"
    by (rule operand_loop_digits) (rule list_all_takeWhile)
  then have split: "operand_loop exact s v False 0 cs
        = operand_loop exact s (v * 10 ^ length ?ds + digits_value ?ds) False 0 ?r"
    by simp
  from digits_and_dot_split [OF dd] show ?thesis
  proof
    assume r0: "?r = []"
    from split show ?thesis unfolding r0 by (simp add: exact_def)
  next
    assume "?r = CHR ''.'' # drop 1 ?r \<and> list_all is_digit (drop 1 ?r)"
    then obtain fs where r: "?r = CHR ''.'' # fs" and fs: "list_all is_digit fs"
      and d: "drop 1 ?r = fs"
      by (cases ?r) auto
    have "operand_loop exact s (v * 10 ^ length ?ds + digits_value ?ds) False 0 ?r
          = operand_loop exact s (v * 10 ^ length ?ds + digits_value ?ds) True 0 (fs @ [])"
      by (simp only: r) simp
    also have "\<dots> = operand_loop exact s
          (v * 10 ^ length ?ds + digits_value ?ds + fraction_value fs / 10 ^ unat (0 :: 8 word))
          True (0 + of_nat (length fs)) []"
      using fs len [unfolded d] by (intro operand_loop_fraction) simp_all
    finally show ?thesis using split unfolding d by (simp add: exact_def)
  qed
qed

lemma operand_value_short_fraction:
  assumes lit: "operand_literal l" and len: "length (fraction_digits l) \<le> 127"
  shows "operand_value exact l = literal_value l"
proof -
  obtain c cs where l: "l = c # cs"
    using lit by (cases l) (simp_all add: operand_literal_def)
  show ?thesis
  proof (cases "c = CHR ''.''")
    case True
    then have fs: "list_all is_digit cs"
      using lit l by (simp add: operand_literal_def digits_and_dot_fraction)
    have fd: "fraction_digits l = cs" and id: "integer_digits l = []"
      using True l by (simp_all add: fraction_digits_def integer_digits_def literal_body_def)
    have "operand_loop exact 1 0 True 0 (cs @ [])
          = operand_loop exact 1 (0 + fraction_value cs / 10 ^ unat (0 :: 8 word)) True
              (0 + of_nat (length cs)) []"
      using fs len fd by (intro operand_loop_fraction) simp_all
    then show ?thesis
      using True l fd id
      by (simp add: operand_value_def parse_operand_def literal_value_def literal_sign_def
          exact_def)
  next
    case False
    then have dd: "digits_and_dot False cs"
      and c: "c = CHR ''-'' \<or> c = CHR ''+'' \<or> is_digit c"
      using lit l by (simp_all add: operand_literal_def)
    show ?thesis
    proof (cases "is_digit c")
      case True
      then have nc: "c \<noteq> CHR ''-''" "c \<noteq> CHR ''+''" by (auto simp: is_digit_def)
      have body: "literal_body (c # cs) = c # cs"
        using nc by (simp add: literal_body_def)
      have len': "length (drop 1 (dropWhile is_digit cs)) \<le> 127"
        using len True by (simp add: fraction_digits_def body l)
      show ?thesis
        using True nc l operand_loop_body [OF dd len', of 1 "real_of_int (digit_val c)"]
        by (simp add: operand_value_def parse_operand_def literal_value_def literal_sign_def
            integer_digits_def fraction_digits_def literal_body_def exact_def)
    next
      case False
      then have sg: "c = CHR ''-'' \<or> c = CHR ''+''" using c by simp
      then have body: "literal_body (c # cs) = cs"
        by (auto simp: literal_body_def)
      have len': "length (drop 1 (dropWhile is_digit cs)) \<le> 127"
        using len by (simp add: fraction_digits_def body l)
      from sg show ?thesis
      proof
        assume m: "c = CHR ''-''"
        show ?thesis
          using m l operand_loop_body [OF dd len', of "- 1" 0]
          by (simp add: operand_value_def parse_operand_def literal_value_def literal_sign_def
              integer_digits_def fraction_digits_def literal_body_def exact_def)
      next
        assume m: "c = CHR ''+''"
        show ?thesis
          using m l operand_loop_body [OF dd len', of 1 0]
          by (simp add: operand_value_def parse_operand_def literal_value_def literal_sign_def
              integer_digits_def fraction_digits_def literal_body_def exact_def)
      qed
    qed
  qed
qed

lemma literal_returned:
  assumes "operand_literal l" and "length (fraction_digits l) \<le> 127"
  shows "calculate exact (l @ ''\<newline>'') = Some (CHR ''n'', literal_value l, [])"
  using assms
  apply (simp add: run_defs calculate_loop.simps parse_expr_literal operand_value_short_fraction)
  apply (simp add: exact_def)
  done

text \<open>Fractional zeros add nothing to the operand and advance \<open>exponent\<close>, which wraps.\<close>

lemma operand_loop_zeros:
  "operand_loop exact s v True e (replicate n CHR ''0'' @ rest)
   = operand_loop exact s v True (e + of_nat n) rest"
proof (induction n arbitrary: e)
  case 0
  then show ?case by simp
next
  case (Suc n)
  have "operand_loop exact s v True e (replicate (Suc n) CHR ''0'' @ rest)
        = operand_loop exact s v True (e + 1) (replicate n CHR ''0'' @ rest)"
    by (simp add: is_digit_def digit_val_def exact_def)
  also have "\<dots> = operand_loop exact s v True (e + 1 + of_nat n) rest"
    by (rule Suc.IH)
  finally show ?case by (simp add: ac_simps)
qed

text \<open>
  The boundary cases of C6 in exact arithmetic: \<open>.5\<close>, \<open>-.5\<close>, \<open>+3\<close>, the empty
  expression, and a literal with both parts.
\<close>

lemma operand_boundary_cases:
  "calculate exact ''.5\<newline>'' = Some (CHR ''n'', 0.5, [])"
  "calculate exact ''-.5\<newline>'' = Some (CHR ''n'', - 0.5, [])"
  "calculate exact ''+3\<newline>'' = Some (CHR ''n'', 3, [])"
  "calculate exact ''\<newline>'' = Some (CHR ''n'', 0, [])"
  "calculate exact ''12.25\<newline>'' = Some (CHR ''n'', 12.25, [])"
  by (simp_all add: eval_defs)

text \<open>
  C6. The input \<open>x\<close> followed by a newline returns the value of the literal \<open>x\<close>. The
  code does not do it for a long fraction: \<open>exponent\<close> is a \<open>char\<close>. After 255
  fractional digits it is back at 0 on the next one, whether the byte is signed or not,
  and that digit is divided by \<open>pow(10, 0) = 1\<close>: a dot, 255 zeros and a 1 evaluate to
  1 instead of \<open>10^-256\<close>. With a signed byte the 128th digit is already divided by
  \<open>pow(10, -128)\<close>: a dot, 127 zeros and a 1 evaluate to \<open>10^128\<close>.
\<close>

theorem long_fraction_wraps_exponent:
  "calculate exact (''.'' @ replicate 255 CHR ''0'' @ ''1\<newline>'') = Some (CHR ''n'', 1, [])
   \<and> calculate exact (''.'' @ replicate 127 CHR ''0'' @ ''1\<newline>'') = Some (CHR ''n'', 10 ^ 128, [])"
proof -
  have "operand_loop exact (of_int_d exact 1) (of_int_d exact 0) True 0
          (replicate 255 CHR ''0'' @ ''1\<newline>'')
        = operand_loop exact (of_int_d exact 1) (of_int_d exact 0) True 255 ''1\<newline>''"
    by (simp only: operand_loop_zeros) simp
  then have a: "parse_operand exact CHR ''.'' (replicate 255 CHR ''0'' @ ''1\<newline>'')
           = (CHR 0x0A, 1, [])"
    by (simp add: parse_operand_def is_digit_def digit_val_def exact_def)
  have "operand_loop exact (of_int_d exact 1) (of_int_d exact 0) True 0
          (replicate 127 CHR ''0'' @ ''1\<newline>'')
        = operand_loop exact (of_int_d exact 1) (of_int_d exact 0) True 127 ''1\<newline>''"
    by (simp only: operand_loop_zeros) simp
  then have b: "parse_operand exact CHR ''.'' (replicate 127 CHR ''0'' @ ''1\<newline>'')
           = (CHR 0x0A, 10 ^ 128, [])"
    by (simp add: parse_operand_def is_digit_def digit_val_def exact_def powr_minus)
  have c: "calculate exact (CHR ''.'' # inp) = Some (CHR ''n'', v, [])"
    if "parse_operand exact CHR ''.'' inp = (CHR 0x0A, v, [])" for inp v
    using that
    by (simp add: run_defs calculate_loop.simps parse_expr.simps getchar_def exact_def)
  show ?thesis
    using c [OF a] c [OF b] by simp
qed

section \<open>Syntax errors\<close>

text \<open>
  What the code does for the three malformations of C7. From every state of the loop of
  \<open>calculate\<close> with a free slot, and for every operand literal \<open>a\<close> at the head of the
  stream:
  \<^item> an operator directly followed by \<open>*\<close> or \<open>/\<close> ends the loop with \<open>s\<close>, the stream
    left right after the second operator;
  \<^item> a second dot in an operand ends it with \<open>s\<close>, the stream left right after that dot;
  \<^item> a character that the \<open>switch\<close> does not name, after the operand and any blanks,
    ends it with \<open>s\<close>, the stream left right after that character;
  \<^item> whenever \<open>parse_expr\<close> answers \<open>s\<close> the loop returns without another read, and
    when a nested call returns \<open>s\<close> the calling loop returns \<open>s\<close> without another read;
  \<^item> the input \<open>3 + * 4\<close> of the specification ends with \<open>s\<close>.
  The value returned with \<open>s\<close> is whatever \<open>operands[0]\<close> holds.
\<close>

lemma syntax_error_ends_evaluation:
  assumes "length (operands w) = 3" and "length (operators w) = 3" and "window_at w < 3"
    and "operand_literal a"
  shows "(arith_operator t \<and> (m = CHR ''*'' \<or> m = CHR ''/'') \<longrightarrow>
            (\<exists>v. calculate_loop ar w (a @ t # m # rest) = Some (CHR ''s'', v, rest)))
       \<and> (CHR ''.'' \<in> set a \<longrightarrow>
            (\<exists>v. calculate_loop ar w (a @ CHR ''.'' # rest) = Some (CHR ''s'', v, rest)))
       \<and> (list_all blank bs \<and> unrecognized c \<and> (bs = [] \<longrightarrow> \<not> is_digit c \<and> c \<noteq> CHR ''.'') \<longrightarrow>
            (\<exists>v. calculate_loop ar w (a @ bs @ c # rest) = Some (CHR ''s'', v, rest)))
       \<and> (\<forall>inp w' inp'. parse_expr ar w inp = (CHR ''s'', w', inp') \<longrightarrow>
            calculate_loop ar w inp = Some (CHR ''s'', operands w' ! 0, inp'))
       \<and> (\<forall>inp w1 inp1 r inp2.
            parse_expr ar w inp = (CHR ''o'', w1, inp1)
            \<and> calculate ar inp1 = Some (CHR ''s'', r, inp2) \<longrightarrow>
            (\<exists>v. calculate_loop ar w inp = Some (CHR ''s'', v, inp2)))
       \<and> (\<exists>v. calculate ar ''3 + * 4\<newline>'' = Some (CHR ''s'', v, ''\<newline>''))"
proof (intro conjI impI allI)
  assume "arith_operator t \<and> (m = CHR ''*'' \<or> m = CHR ''/'')"
  then show "\<exists>v. calculate_loop ar w (a @ t # m # rest) = Some (CHR ''s'', v, rest)"
    using consecutive_operators [OF assms(1,2,3,4), of t m ar rest] by simp
next
  assume "CHR ''.'' \<in> set a"
  then show "\<exists>v. calculate_loop ar w (a @ CHR ''.'' # rest) = Some (CHR ''s'', v, rest)"
    by (rule second_dot [OF assms(3,4)])
next
  assume h: "list_all blank bs \<and> unrecognized c \<and> (bs = [] \<longrightarrow> \<not> is_digit c \<and> c \<noteq> CHR ''.'')"
  then have "calculate_loop ar w (a @ bs @ c # rest)
      = Some (CHR ''s'', operands (set_operand w (window_at w) (operand_value ar a)) ! 0, rest)"
    by (intro unrecognized_character assms) simp_all
  then show "\<exists>v. calculate_loop ar w (a @ bs @ c # rest) = Some (CHR ''s'', v, rest)" by blast
next
  fix inp w' inp'
  assume "parse_expr ar w inp = (CHR ''s'', w', inp')"
  then show "calculate_loop ar w inp = Some (CHR ''s'', operands w' ! 0, inp')"
    by (rule calculate_loop_error)
next
  fix inp w1 inp1 r inp2
  assume "parse_expr ar w inp = (CHR ''o'', w1, inp1)
            \<and> calculate ar inp1 = Some (CHR ''s'', r, inp2)"
  then have "parse_expr ar w inp = (CHR ''o'', w1, inp1)"
    and "calculate ar inp1 = Some (CHR ''s'', r, inp2)" by simp_all
  then show "\<exists>v. calculate_loop ar w inp = Some (CHR ''s'', v, inp2)"
    by (rule nested_error)
next
  show "\<exists>v. calculate ar ''3 + * 4\<newline>'' = Some (CHR ''s'', v, ''\<newline>'')"
    by (simp add: run_defs parse_expr.simps getchar_def parse_operand_def is_digit_def
        digit_val_def EOF_char_def calculate_loop.simps)
qed

lemma syntax_error_examples:
  "length (operands (init_window exact)) = 3 \<and> length (operators (init_window exact)) = 3
   \<and> window_at (init_window exact) < 3
   \<and> operand_literal ''3'' \<and> operand_literal ''1.2'' \<and> CHR ''.'' \<in> set ''1.2''
   \<and> arith_operator CHR ''+'' \<and> list_all blank '' '' \<and> unrecognized CHR ''@''
   \<and> calculate exact ''3+*4\<newline>'' = Some (CHR ''s'', 3, ''4\<newline>'')
   \<and> calculate exact ''1.2.3\<newline>'' = Some (CHR ''s'', 12 / 10, ''3\<newline>'')
   \<and> calculate exact ''3 @ 4\<newline>'' = Some (CHR ''s'', 3, '' 4\<newline>'')
   \<and> parse_expr exact (init_window exact) ''(1.2.3)\<newline>''
       = (CHR ''o'', init_window exact, ''1.2.3)\<newline>'')
   \<and> calculate exact ''(1.2.3)\<newline>'' = Some (CHR ''s'', 12 / 10, ''3)\<newline>'')"
  using syntax_error_ends_evaluation
      [of "init_window exact" "''3''" "CHR ''+''" "CHR ''*''" exact "''4\<newline>''" "'' ''" "CHR ''@''"]
    syntax_error_ends_evaluation
      [of "init_window exact" "''1.2''" "CHR ''+''" "CHR ''*''" exact "''3\<newline>''" "'' ''" "CHR ''@''"]
  by (simp add: eval_defs operand_literal_def arith_operator_def unrecognized_def blank_def)

text \<open>
  C7. Each of the three malformations ends the evaluation with status \<open>s\<close>. The three
  inputs of the claim do. The code does not do it for every input of the first kind:
  with a blank between the two operators and none after the second, as in \<open>3 + *4\<close>
  and \<open>3* *4\<close>, the blank is handed back as an empty operand 0, the second operator is
  stored, and the run ends with status \<open>n\<close>. Nor for every character in the operator
  position: the letter \<open>o\<close> is the value \<open>parse_operand\<close> returns for an opening
  parenthesis, so \<open>3o4\<close> is evaluated as an opening parenthesis after 3.
\<close>

theorem consecutive_operators_accepted:
  "calculate exact ''3 + *4\<newline>'' = Some (CHR ''n'', 3, [])
   \<and> calculate exact ''3* *4\<newline>'' = Some (CHR ''n'', 0, [])
   \<and> calculate exact ''3o4\<newline>5\<newline>'' = Some (CHR ''n'', 9, [])
   \<and> calculate exact ''3 + * 4\<newline>'' = Some (CHR ''s'', 3, ''\<newline>'')
   \<and> calculate exact ''1.2.3\<newline>'' = Some (CHR ''s'', 12 / 10, ''3\<newline>'')
   \<and> calculate exact ''3 @ 4\<newline>'' = Some (CHR ''s'', 3, '' 4\<newline>'')"
  by (simp add: eval_defs)

section \<open>Division by zero\<close>



section \<open>The end of a nested expression\<close>

text \<open>
  \<open>parse_expr\<close> returns one of five letters, and \<open>calculate\<close> leaves one of \<open>s\<close>, \<open>n\<close>
  and \<open>c\<close> in \<open>*status\<close>: never the newline character that line 60 compares it with.
  After a nested call that ended on a newline the loop therefore goes on.
\<close>

lemma parse_expr_status: "fst (parse_expr ar w inp) \<in> statuses"
proof (induction "3 - window_at w" arbitrary: w inp rule: less_induct)
  case less
  show ?case
  proof (cases "window_at w < 3")
    case False
    then show ?thesis by (simp add: parse_expr_full statuses_def)
  next
    case True
    have rec: "fst (parse_expr ar (store_operator (set_operand w (window_at w) v) c) i) \<in> statuses"
      for v c i
      using True by (intro less.hyps) (simp add: window_defs)
    show ?thesis
      using True
      by (subst parse_expr.simps) (simp add: Let_def rec statuses_def [symmetric] split: prod.splits, simp add: statuses_def)
  qed
qed

lemma calculate_loop_status:
  assumes "calculate_loop ar w inp = Some res"
  shows "fst res = CHR ''s'' \<or> fst res = CHR ''n'' \<or> fst res = CHR ''c''"
  using assms
proof (induction rule: calculate_loop.raw_induct [rotated, consumes 1])
  case (1 f ar w inp res)
  obtain st w1 inp1 where pe: "parse_expr ar w inp = (st, w1, inp1)"
    by (cases "parse_expr ar w inp")
  have st: "st \<in> statuses" using parse_expr_status [of ar w inp] pe by simp
  have nested: "fst y = CHR ''s'' \<or> fst y = CHR ''n'' \<or> fst y = CHR ''c''"
    if "f a b c = Some y" for a b c y
    using "1"(1) that by blast
  show ?case
  proof (cases "st = CHR ''o''")
    case False
    then show ?thesis
      using "1"(2) st nested unfolding pe
      by (auto simp: Let_def statuses_def split: if_splits)
  next
    case True
    then obtain st' r inp2 where n: "f ar (init_window ar) inp1 = Some (st', r, inp2)"
      using "1"(2) unfolding pe
      by (auto simp: Let_def split: if_splits Option.bind_splits)
    from nested [OF n] have st': "st' = CHR ''s'' \<or> st' = CHR ''n'' \<or> st' = CHR ''c''" by simp
    show ?thesis
      using "1"(2) True n st' nested unfolding pe
      by (auto simp: Let_def split: if_splits)
  qed
qed

lemma nested_end_continues:
  assumes "parse_expr ar w inp = (CHR ''o'', w1, inp1)"
    and "\<not> contains_nest_op (operators w1)"
    and "calculate ar inp1 = Some (CHR ''n'', r, inp2)"
  shows "calculate_loop ar w inp
         = calculate_loop ar (compute ar (set_operand w1 (window_at w1) r)) inp2"
  using assms
  by (subst calculate_loop.simps) (simp add: calculate_def Let_def)

text \<open>
  C9. When a nested sub-expression ends on the newline, the calling evaluator collapses
  once and returns without reading further. The code does not do it: the nested call
  leaves the letter \<open>n\<close> in \<open>*status\<close>, line 60 tests for the newline character, and the
  loop calls \<open>parse_expr\<close> again. On \<open>(1+2\<close>, newline, \<open>5\<close>, newline, it reads the second
  line as well and returns \<open>3 + 5 = 8\<close>; with nothing after the first newline it reads
  the end of the stream and returns with status \<open>s\<close>. Without the parenthesis the second
  line is left unread.
\<close>

theorem nested_end_keeps_reading:
  "calculate exact ''(1+2\<newline>5\<newline>'' = Some (CHR ''n'', 8, [])
   \<and> calculate exact ''(1+2\<newline>'' = Some (CHR ''s'', 3, [])
   \<and> calculate exact ''1+2\<newline>5\<newline>'' = Some (CHR ''n'', 3, ''5\<newline>'')"
  by (simp add: eval_defs)

section \<open>The collapse\<close>

text \<open>
  A window is well formed, \<open>window_ok\<close>, when it has three operands and three
  operators, each of them arithmetic. \<open>calculate\<close> only ever collapses well-formed
  windows. The fresh window is one; \<open>compute\<close> keeps it one and leaves a free slot; \<open>parse_expr\<close> keeps it one, except that on an
  opening parenthesis in the operator position it stores \<open>(\<close> at the cursor, which
  \<open>calculate\<close> overwrites with \<open>*\<close> before it collapses.
\<close>

lemma init_window_ok: "window_ok (init_window ar)"
  by (simp add: window_ok_def init_window_def arith_operator_def)

lemma list_all_update: "list_all P xs \<Longrightarrow> P c \<Longrightarrow> list_all P (xs[i := c])"
  by (induction xs arbitrary: i) (auto split: nat.splits)

lemma window_ok_operators:
  "window_ok w \<Longrightarrow>
   arith_operator (operators w ! 0) \<and> arith_operator (operators w ! 1)
   \<and> arith_operator (operators w ! 2)"
  by (simp add: window_ok_def list_all_length)

lemma window_ok_no_nest_op: "window_ok w \<Longrightarrow> \<not> contains_nest_op (operators w)"
  using window_ok_operators [of w] by (auto simp: contains_nest_op_def arith_operator_def)

lemma compute_window_ok:
  assumes "window_ok w"
  shows "window_ok (compute ar w) \<and> window_at (compute ar w) < 3"
proof -
  have len: "length (operands w) = 3" "length (operators w) = 3"
    and ops: "arith_operator (operators w ! 0)" "arith_operator (operators w ! 1)"
      "arith_operator (operators w ! 2)"
    using assms by (simp_all add: window_ok_def list_all_length)
  obtain a b c where o: "operators w = [a, b, c]"
    using len(2) by (cases "operators w"; simp; rename_tac x xs; case_tac xs; simp; rename_tac y ys; case_tac ys; simp)
  obtain x y z where p: "operands w = [x, y, z]"
    using len(1) by (cases "operands w"; simp; rename_tac x xs; case_tac xs; simp; rename_tac y ys; case_tac ys; simp)
  show ?thesis
    using ops unfolding o p
    by (auto simp: window_ok_def compute_defs window_defs o p arith_operator_def Let_def)
qed

lemma parse_expr_window_ok:
  assumes "window_ok w" and "parse_expr ar w inp = (st, w', inp')"
  shows "if st = CHR ''o''
         then window_at w' < 3
              \<and> window_ok (if contains_nest_op (operators w')
                            then set_operator w' (window_at w') CHR ''*'' else w')
         else window_ok w'"
  using assms
proof (induction "3 - window_at w" arbitrary: w inp rule: less_induct)
  case less
  show ?case
  proof (cases "window_at w < 3")
    case False
    then show ?thesis using less.prems by (auto simp: parse_expr_full)
  next
    case True
    obtain c0 inp0 where g: "getchar inp = (c0, inp0)" by (cases "getchar inp")
    obtain c1 v inp1 where po: "parse_operand ar c0 inp0 = (c1, v, inp1)"
      by (cases "parse_operand ar c0 inp0")
    obtain c inp2 where sb: "skip_blanks c1 inp1 = (c, inp2)" by (cases "skip_blanks c1 inp1")
    let ?w1 = "set_operand w (window_at w) v"
    have ok1: "window_ok ?w1" using less.prems(1) by (simp add: window_ok_def window_defs)
    have nn: "\<not> contains_nest_op (operators ?w1)"
      using ok1 by (rule window_ok_no_nest_op)
    have step: "window_ok (store_operator ?w1 t)
                \<and> 3 - window_at (store_operator ?w1 t) < 3 - window_at w"
      if "arith_operator t" for t
      using ok1 True that by (simp add: window_ok_def window_defs list_all_update)
    have rec: "parse_expr ar (store_operator ?w1 t) inp2 = (st, w', inp') \<Longrightarrow> ?thesis"
      if "arith_operator t" for t
      using less.hyps [OF conjunct2 [OF step [OF that]] conjunct1 [OF step [OF that]]] .
    have open_ok: "window_ok (set_operator (set_operator ?w1 (window_at ?w1) CHR ''('')
                     (window_at ?w1) CHR ''*'')"
      using ok1 by (simp add: window_ok_def window_defs list_all_update arith_operator_def)
    have "operators (set_operator ?w1 (window_at ?w1) CHR ''('') ! window_at w = CHR ''(''"
      using ok1 True by (simp add: window_ok_def window_defs)
    moreover have "window_at w = 0 \<or> window_at w = 1 \<or> window_at w = 2"
      using True by arith
    ultimately have nest:
      "contains_nest_op (operators (set_operator ?w1 (window_at ?w1) CHR ''(''))"
      unfolding contains_nest_op_def by metis
    show ?thesis
    proof (cases "c1 = CHR ''s''")
      case s: True
      have "parse_expr ar w inp = (CHR ''s'', ?w1, inp1)"
        using True g po s by (subst parse_expr.simps) (simp add: Let_def)
      then show ?thesis using less.prems(2) ok1 by auto
    next
      case False
      have "parse_expr ar w inp = operator_switch ar ?w1 c inp2"
        using True g po sb False
        by (subst parse_expr.simps) (simp add: operator_switch_def Let_def split del: if_split)
      then have sw: "operator_switch ar ?w1 c inp2 = (st, w', inp')"
        using less.prems(2) by simp
      consider "arith_operator c" | "c = CHR ''(''" | "c = CHR ''o''" | "c = CHR '')''"
        | "c = CHR 0x0A" | "\<not> arith_operator c" "c \<noteq> CHR ''(''" "c \<noteq> CHR ''o''" "c \<noteq> CHR '')''"
          "c \<noteq> CHR 0x0A"
        by blast
      then show ?thesis
      proof cases
        case 1
        then show ?thesis using sw rec [OF 1] by (simp add: operator_switch_operator)
      next
        case 2
        then show ?thesis
          using sw open_ok nest True by (auto simp: operator_switch_def window_defs)
      next
        case 3
        then show ?thesis
          using sw ok1 nn True by (auto simp: operator_switch_def window_defs)
      next
        case 4
        then show ?thesis using sw ok1 by (auto simp: operator_switch_def)
      next
        case 5
        then show ?thesis using sw ok1 by (auto simp: operator_switch_def)
      next
        case 6
        then show ?thesis using sw ok1 by (auto simp: operator_switch_def arith_operator_def)
      qed
    qed
  qed
qed

text \<open>
  C10. When the trailing operator \<open>operators[2]\<close> is one of the five arithmetic
  operators, which is all that \<open>parse_expr\<close> and \<open>calculate\<close> ever leave there, a call of
  \<open>compute\<close> takes one of the three shift modes. After the call, whichever mode it took,
  \<open>operands[2]\<close> is 0, \<open>operators[2]\<close> is \<open>+\<close>, and \<open>window_at\<close> is 1 or 2.
\<close>

theorem compute_resets_trailing_slot:
  assumes "length (operands w) = 3" and "length (operators w) = 3"
    and "arith_operator (operators w ! 2)"
  shows "operands (compute ar w) ! 2 = of_int_d ar 0
         \<and> operators (compute ar w) ! 2 = CHR ''+''
         \<and> (window_at (compute ar w) = 1 \<or> window_at (compute ar w) = 2)"
  using assms
  by (auto simp: compute_defs window_defs arith_operator_def Let_def)

theorem compute_resets_trailing_slot_witness:
  "length (operands \<lparr>operands = [1, 2, 3 :: real], operators = ''+*-'', window_at = 3\<rparr>) = 3
   \<and> length (operators \<lparr>operands = [1, 2, 3 :: real], operators = ''+*-'', window_at = 3\<rparr>) = 3
   \<and> arith_operator (operators \<lparr>operands = [1, 2, 3 :: real], operators = ''+*-'', window_at = 3\<rparr> ! 2)
   \<and> compute exact \<lparr>operands = [1, 2, 3 :: real], operators = ''+*-'', window_at = 3\<rparr>
       = \<lparr>operands = [7, 3, 0], operators = ''*-+'', window_at = 2\<rparr>"
  using compute_resets_trailing_slot
    [of "\<lparr>operands = [1, 2, 3 :: real], operators = ''+*-'', window_at = 3\<rparr>" exact]
  by (simp add: compute_defs window_defs arith_operator_def exact_def Let_def)

end
